theory Spec2Isabelle
  imports Main "HOL-Library.Sublist"
begin

section \<open>Path functions used by the directory teardown step\<close>

text \<open>
  The step in \<^verbatim>\<open>pkg/cleanup/directories.go\<close> decides ownership of a mount with
  \<^verbatim>\<open>isUnderPath\<close>, which calls \<^verbatim>\<open>filepath.Rel\<close>, \<^verbatim>\<open>strings.HasPrefix\<close> and
  \<^verbatim>\<open>filepath.IsAbs\<close>, and builds the kubelet directory with \<^verbatim>\<open>filepath.Join\<close>.
  These are functions of the Go standard library; they are embedded here as they behave
  on unix (\<^verbatim>\<open>Separator = '/'\<close>, empty volume name, \<^verbatim>\<open>sameWord\<close> is string equality).
  A Go string is a sequence of bytes, a \<^typ>\<open>string\<close> here.
\<close>

definition Separator :: char where
  "Separator = CHR ''/''"

text \<open>\<^verbatim>\<open>strings.HasPrefix(s, prefix)\<close>: \<^verbatim>\<open>len(s) >= len(prefix) && s[:len(prefix)] == prefix\<close>.\<close>

definition HasPrefix :: "string \<Rightarrow> string \<Rightarrow> bool" where
  "HasPrefix s p = (length s \<ge> length p \<and> take (length p) s = p)"

text \<open>\<^verbatim>\<open>filepath.IsAbs\<close> on unix: \<^verbatim>\<open>strings.HasPrefix(path, "/")\<close>.\<close>

definition IsAbs :: "string \<Rightarrow> bool" where
  "IsAbs path = HasPrefix path ''/''"

text \<open>
  The inner loop of the \<^verbatim>\<open>..\<close> case of \<^verbatim>\<open>filepath.Clean\<close>, after \<^verbatim>\<open>out.w--\<close>:
  \<^verbatim>\<open>for out.w > dotdot && !os.IsPathSeparator(out.index(out.w)) { out.w-- }\<close>.
  It returns the new write index.
\<close>

fun backtrack :: "string \<Rightarrow> nat \<Rightarrow> nat \<Rightarrow> nat" where
  "backtrack buf dotdot w =
     (if w > dotdot \<and> buf ! w \<noteq> Separator then backtrack buf dotdot (w - 1) else w)"

declare backtrack.simps [simp del]

text \<open>
  The main loop of \<^verbatim>\<open>filepath.Clean\<close>. \<open>rest\<close> is the unread input \<^verbatim>\<open>path[r:]\<close>,
  \<open>out\<close> the bytes written so far (\<^verbatim>\<open>out.w = len(out)\<close>), \<open>dotdot\<close> the index where
  a \<^verbatim>\<open>..\<close> must stop. The four cases are the four cases of the source's switch, in
  its order: an empty element, a \<^verbatim>\<open>.\<close> element, a \<^verbatim>\<open>..\<close> element, a real element.
\<close>

function clean_loop :: "bool \<Rightarrow> string \<Rightarrow> string \<Rightarrow> nat \<Rightarrow> string" where
  "clean_loop rooted rest out dotdot =
     (if rest = [] then out
      else if hd rest = Separator then clean_loop rooted (tl rest) out dotdot
      else if hd rest = CHR ''.'' \<and> (tl rest = [] \<or> hd (tl rest) = Separator)
        then clean_loop rooted (tl rest) out dotdot
      else if hd rest = CHR ''.'' \<and> hd (tl rest) = CHR ''.''
              \<and> (tl (tl rest) = [] \<or> hd (tl (tl rest)) = Separator)
        then (if length out > dotdot
                then clean_loop rooted (tl (tl rest))
                       (take (backtrack out dotdot (length out - 1)) out) dotdot
              else if \<not> rooted
                then (let out' = (if length out > 0 then out @ [Separator] else out) @ ''..''
                      in clean_loop rooted (tl (tl rest)) out' (length out'))
              else clean_loop rooted (tl (tl rest)) out dotdot)
      else (let out' = (if rooted \<and> length out \<noteq> 1 \<or> \<not> rooted \<and> length out \<noteq> 0
                          then out @ [Separator] else out)
            in clean_loop rooted (dropWhile (\<lambda>c. c \<noteq> Separator) rest)
                 (out' @ takeWhile (\<lambda>c. c \<noteq> Separator) rest) dotdot))"
  by pat_completeness auto
termination
proof (relation "measure (\<lambda>(rooted, rest, out, dotdot). length rest)")
  fix rooted :: bool and rest out :: string and dotdot :: nat and out' :: string
  assume "rest \<noteq> []" "hd rest \<noteq> Separator"
  then have "dropWhile (\<lambda>c. c \<noteq> Separator) rest = dropWhile (\<lambda>c. c \<noteq> Separator) (tl rest)"
    by (cases rest) auto
  moreover have "length (dropWhile (\<lambda>c. c \<noteq> Separator) (tl rest)) \<le> length (tl rest)"
    by (rule length_dropWhile_le)
  moreover have "length (tl rest) < length rest"
    using \<open>rest \<noteq> []\<close> by (cases rest) auto
  ultimately show "((rooted, dropWhile (\<lambda>c. c \<noteq> Separator) rest,
                     out' @ takeWhile (\<lambda>c. c \<noteq> Separator) rest, dotdot),
                    (rooted, rest, out, dotdot))
                   \<in> measure (\<lambda>(rooted, rest, out, dotdot). length rest)"
    by simp
qed (auto simp: neq_Nil_conv)

declare clean_loop.simps [simp del]

text \<open>
  \<^verbatim>\<open>filepath.Clean\<close>: the empty path becomes \<^verbatim>\<open>"."\<close>; a rooted path starts the
  output with the separator and \<^verbatim>\<open>r, dotdot = 1, 1\<close>; an empty output becomes \<^verbatim>\<open>"."\<close>.
\<close>

definition Clean :: "string \<Rightarrow> string" where
  "Clean path =
     (if path = [] then ''.''
      else (let rooted = (hd path = Separator);
                out = (if rooted then clean_loop True (tl path) [Separator] 1
                       else clean_loop False path [] 0)
            in if out = [] then ''.'' else out))"

text \<open>
  \<^verbatim>\<open>filepath.Join\<close> on unix: the elements from the first non-empty one on, joined with
  the separator and cleaned; the empty string when every element is empty.
\<close>

fun join_sep :: "string list \<Rightarrow> string" where
  "join_sep [] = []"
| "join_sep [e] = e"
| "join_sep (e # es) = e @ [Separator] @ join_sep es"

fun Join :: "string list \<Rightarrow> string" where
  "Join [] = []"
| "Join (e # es) = (if e \<noteq> [] then Clean (join_sep (e # es)) else Join es)"

text \<open>
  The element loop of \<^verbatim>\<open>filepath.Rel\<close>. At the head of the loop \<^verbatim>\<open>b0 = bi\<close> and
  \<^verbatim>\<open>t0 = ti\<close>; \<open>b\<close> is \<^verbatim>\<open>base[b0:]\<close> and \<open>t\<close> is \<^verbatim>\<open>targ[t0:]\<close>. The result is
  \<^verbatim>\<open>(base[b0:], base[b0:bi], targ[t0:])\<close> when the loop is left.
\<close>

function rel_loop :: "string \<Rightarrow> string \<Rightarrow> string \<times> string \<times> string" where
  "rel_loop b t =
     (if b \<noteq> [] \<and> t \<noteq> [] then
        (let belem = takeWhile (\<lambda>c. c \<noteq> Separator) b;
             telem = takeWhile (\<lambda>c. c \<noteq> Separator) t
         in if telem \<noteq> belem then (b, belem, t)
            else rel_loop (drop 1 (dropWhile (\<lambda>c. c \<noteq> Separator) b))
                          (drop 1 (dropWhile (\<lambda>c. c \<noteq> Separator) t)))
      else (b, [], t))"
  by pat_completeness auto
termination
proof (relation "measure (\<lambda>(b, t). length b)")
  fix b t :: string and belem telem :: string
  assume "b \<noteq> [] \<and> t \<noteq> []"
  then obtain c cs where b: "b = c # cs" by (cases b) auto
  have "length (drop 1 (dropWhile (\<lambda>c. c \<noteq> Separator) b)) < length b"
  proof (cases "c = Separator")
    case True
    then show ?thesis by (simp add: b)
  next
    case False
    have "length (dropWhile (\<lambda>c. c \<noteq> Separator) cs) \<le> length cs"
      by (rule length_dropWhile_le)
    with False show ?thesis by (simp add: b)
  qed
  then show "((drop 1 (dropWhile (\<lambda>c. c \<noteq> Separator) b),
               drop 1 (dropWhile (\<lambda>c. c \<noteq> Separator) t)), (b, t))
             \<in> measure (\<lambda>(b, t). length b)"
    by simp
qed simp

declare rel_loop.simps [simp del]

text \<open>
  \<^verbatim>\<open>filepath.Rel(basepath, targpath)\<close>. \<open>Inl\<close> is the error
  \<^verbatim>\<open>"Rel: can't make " + targpath + " relative to " + basepath\<close>.
\<close>

definition Rel_error :: "string \<Rightarrow> string \<Rightarrow> string" where
  "Rel_error basepath targpath =
     ''Rel: can't make '' @ targpath @ '' relative to '' @ basepath"

definition Rel :: "string \<Rightarrow> string \<Rightarrow> string + string" where
  "Rel basepath targpath =
     (let base = Clean basepath; targ = Clean targpath in
      if targ = base then Inr ''.''
      else
        (let base = (if base = ''.'' then [] else base);
             baseSlashed = (length base > 0 \<and> hd base = Separator);
             targSlashed = (length targ > 0 \<and> hd targ = Separator)
         in if baseSlashed \<noteq> targSlashed then Inl (Rel_error basepath targpath)
            else
              (case rel_loop base targ of (b, belem, t) \<Rightarrow>
                 if belem = ''..'' then Inl (Rel_error basepath targpath)
                 else if b \<noteq> [] then
                   (let seps = length (filter (\<lambda>c. c = Separator) b)
                    in Inr (''..'' @ concat (replicate seps (Separator # ''..''))
                            @ (if t \<noteq> [] then Separator # t else [])))
                 else Inr t)))"

text \<open>
  \<^verbatim>\<open>isUnderPath\<close> (directories.go, lines 109-113): "test if the path is a directory equal
  to or under base".
\<close>

definition isUnderPath :: "string \<Rightarrow> string \<Rightarrow> bool" where
  "isUnderPath path base =
     (case Rel base path of
        Inl err \<Rightarrow> False
      | Inr rel \<Rightarrow> \<not> HasPrefix rel ''..'' \<and> \<not> IsAbs rel)"

section \<open>Errors\<close>

text \<open>
  Go's \<^verbatim>\<open>error\<close> values, as far as the step makes and inspects them: a plain error
  with a message and no \<^verbatim>\<open>Unwrap\<close> (\<^verbatim>\<open>errors.New\<close>, \<^verbatim>\<open>fmt.Errorf\<close> without
  \<^verbatim>\<open>%w\<close>, a \<^verbatim>\<open>syscall.Errno\<close>), an \<^verbatim>\<open>*os.PathError{Op, Path, Err}\<close>, and the
  wrapper that \<^verbatim>\<open>fmt.Errorf\<close> with \<^verbatim>\<open>%w\<close> returns (its formatted message and the
  wrapped error). A \<^verbatim>\<open>nil\<close> error is \<open>None\<close> of \<^typ>\<open>'a option\<close>.
\<close>

datatype go_error =
    ErrorString string
  | PathError string string go_error
  | WrapError string go_error

text \<open>The \<^verbatim>\<open>Error()\<close> method: a \<^verbatim>\<open>PathError\<close> prints \<^verbatim>\<open>Op + " " + Path + ": " + Err.Error()\<close>.\<close>

fun Error :: "go_error \<Rightarrow> string" where
  "Error (ErrorString s) = s"
| "Error (PathError opn pth err) = opn @ '' '' @ pth @ '': '' @ Error err"
| "Error (WrapError msg err) = msg"

text \<open>
  \<^verbatim>\<open>errors.As(err, &pathErr)\<close> with \<^verbatim>\<open>pathErr *os.PathError\<close>, for a non-nil \<^verbatim>\<open>err\<close>:
  the first error of the chain that is a \<^verbatim>\<open>*os.PathError\<close>, following \<^verbatim>\<open>Unwrap\<close>;
  \<open>None\<close> is the result \<^verbatim>\<open>false\<close>.
\<close>

fun errors_As_PathError :: "go_error \<Rightarrow> (string \<times> string \<times> go_error) option" where
  "errors_As_PathError (ErrorString s) = None"
| "errors_As_PathError (PathError opn pth err) = Some (opn, pth, err)"
| "errors_As_PathError (WrapError msg err) = errors_As_PathError err"

text \<open>\<^verbatim>\<open>errorIsUnlinkat\<close> (directories.go, lines 119-128).\<close>

definition errorIsUnlinkat :: "go_error option \<Rightarrow> string \<Rightarrow> bool" where
  "errorIsUnlinkat err dir =
     (case err of
        None \<Rightarrow> False
      | Some e \<Rightarrow>
          (case errors_As_PathError e of
             None \<Rightarrow> False
           | Some (opn, pth, inner) \<Rightarrow> pth = dir \<and> opn = ''unlinkat''))"

section \<open>The step\<close>

text \<open>
  The fields of \<^verbatim>\<open>Config\<close> that \<^verbatim>\<open>Run\<close> reads: \<^verbatim>\<open>d.Config.dataDir\<close>,
  \<^verbatim>\<open>d.Config.runDir\<close> and \<^verbatim>\<open>d.Config.k0sVars.DataDir\<close>.
\<close>

record Config =
  dataDir :: string
  runDir :: string
  k0sVars_DataDir :: string

text \<open>\<^verbatim>\<open>mount.MountPoint\<close> of k8s.io/mount-utils, one line of the mount table.\<close>

record MountPoint =
  Device :: string
  Path :: string
  Type :: string
  Opts :: "string list"
  Freq :: int
  Pass :: int

text \<open>
  The operating system, as the step uses it: \<^verbatim>\<open>mounter.List()\<close>,
  \<^verbatim>\<open>mounter.Unmount(path)\<close>, \<^verbatim>\<open>UnmountLazy(path)\<close> and \<^verbatim>\<open>os.RemoveAll(path)\<close>.
  Each call reads and changes a state \<open>'w\<close> of the machine and returns an error or
  \<^verbatim>\<open>nil\<close>. Nothing is assumed about them: the theorems hold for every such system.
\<close>

record 'w os =
  mounter_List :: "'w \<Rightarrow> (go_error + MountPoint list) \<times> 'w"
  mounter_Unmount :: "string \<Rightarrow> 'w \<Rightarrow> go_error option \<times> 'w"
  UnmountLazy :: "string \<Rightarrow> 'w \<Rightarrow> go_error option \<times> 'w"
  os_RemoveAll :: "string \<Rightarrow> 'w \<Rightarrow> go_error option \<times> 'w"

text \<open>
  The calls a run makes, in order, each with the error it returned. The log lines
  (\<^verbatim>\<open>logrus.Debugf\<close>, \<^verbatim>\<open>logrus.Warningf\<close>) change nothing and are left out.
\<close>

datatype call =
    CallList
  | CallUnmount string
  | CallUnmountLazy string
  | CallRemoveAll string

type_synonym event = "call \<times> go_error option"

text \<open>The ownership test of line 72.\<close>

definition owned :: "Config \<Rightarrow> string \<Rightarrow> bool" where
  "owned cfg p =
     (isUnderPath p (Join [dataDir cfg, ''kubelet'']) \<or> isUnderPath p (k0sVars_DataDir cfg))"

text \<open>
  The loop of lines 64-84, \<^verbatim>\<open>for i := len(procMounts) - 1; i >= 0; i--\<close>, as a
  recursion over the records still to visit (\<^verbatim>\<open>procMounts[i], ..., procMounts[0]\<close>, so
  \<^verbatim>\<open>Run\<close> starts it on the reversed list). \<open>Inl\<close> is the \<^verbatim>\<open>return fmt.Errorf(...)\<close> of
  line 80, \<open>Inr\<close> the value of \<^verbatim>\<open>dataDirMounted\<close> when the loop ends.
\<close>

fun unmount_loop ::
  "'w os \<Rightarrow> Config \<Rightarrow> MountPoint list \<Rightarrow> bool \<Rightarrow> 'w \<Rightarrow> (go_error + bool) \<times> 'w \<times> event list"
where
  "unmount_loop sys cfg [] dataDirMounted w = (Inr dataDirMounted, w, [])"
| "unmount_loop sys cfg (v # vs) dataDirMounted w =
     (if Path v = k0sVars_DataDir cfg then unmount_loop sys cfg vs True w
      else if owned cfg (Path v) then
        (case mounter_Unmount sys (Path v) w of
           (None, w1) \<Rightarrow>
             (case unmount_loop sys cfg vs dataDirMounted w1 of
                (r, w', tr) \<Rightarrow> (r, w', (CallUnmount (Path v), None) # tr))
         | (Some err, w1) \<Rightarrow>
             (case UnmountLazy sys (Path v) w1 of
                (None, w2) \<Rightarrow>
                  (case unmount_loop sys cfg vs dataDirMounted w2 of
                     (r, w', tr) \<Rightarrow>
                       (r, w', (CallUnmount (Path v), Some err)
                               # (CallUnmountLazy (Path v), None) # tr))
              | (Some err2, w2) \<Rightarrow>
                  (Inl (ErrorString (''failed unmount '' @ Path v)), w2,
                   [(CallUnmount (Path v), Some err),
                    (CallUnmountLazy (Path v), Some err2)])))
      else unmount_loop sys cfg vs dataDirMounted w)"

text \<open>
  Lines 92-106: the two deletions. \<^verbatim>\<open>fmt.Errorf("...: %w", err)\<close> is the wrapper with the
  formatted message.
\<close>

definition removeDirs ::
  "'w os \<Rightarrow> Config \<Rightarrow> bool \<Rightarrow> 'w \<Rightarrow> go_error option \<times> 'w \<times> event list"
where
  "removeDirs sys cfg dataDirMounted w =
     (case os_RemoveAll sys (dataDir cfg) w of
        (Some err, w1) \<Rightarrow>
          if \<not> dataDirMounted then
            (Some (WrapError (''failed to delete k0s generated data-dir: '' @ Error err) err),
             w1, [(CallRemoveAll (dataDir cfg), Some err)])
          else if \<not> errorIsUnlinkat (Some err) (dataDir cfg) then
            (Some (WrapError (''failed to delete contents of mounted data-dir: '' @ Error err) err),
             w1, [(CallRemoveAll (dataDir cfg), Some err)])
          else
            (case os_RemoveAll sys (runDir cfg) w1 of
               (Some err2, w2) \<Rightarrow>
                 (Some (WrapError (''failed to delete '' @ runDir cfg @ '': '' @ Error err2) err2),
                  w2, [(CallRemoveAll (dataDir cfg), Some err),
                       (CallRemoveAll (runDir cfg), Some err2)])
             | (None, w2) \<Rightarrow>
                 (None, w2, [(CallRemoveAll (dataDir cfg), Some err),
                             (CallRemoveAll (runDir cfg), None)]))
      | (None, w1) \<Rightarrow>
          (case os_RemoveAll sys (runDir cfg) w1 of
             (Some err2, w2) \<Rightarrow>
               (Some (WrapError (''failed to delete '' @ runDir cfg @ '': '' @ Error err2) err2),
                w2, [(CallRemoveAll (dataDir cfg), None),
                     (CallRemoveAll (runDir cfg), Some err2)])
           | (None, w2) \<Rightarrow>
               (None, w2, [(CallRemoveAll (dataDir cfg), None),
                           (CallRemoveAll (runDir cfg), None)])))"

text \<open>
  \<^verbatim>\<open>Run\<close> (lines 40-107): the error it returns (\<open>None\<close> is \<^verbatim>\<open>nil\<close>), the state of the
  machine it leaves, and the calls it made.
\<close>

definition Run :: "'w os \<Rightarrow> Config \<Rightarrow> 'w \<Rightarrow> go_error option \<times> 'w \<times> event list" where
  "Run sys cfg w =
     (case mounter_List sys w of
        (Inl err, w0) \<Rightarrow> (Some err, w0, [(CallList, Some err)])
      | (Inr procMounts, w0) \<Rightarrow>
          (case unmount_loop sys cfg (rev procMounts) False w0 of
             (Inl err, w1, tr) \<Rightarrow> (Some err, w1, (CallList, None) # tr)
           | (Inr dataDirMounted, w1, tr) \<Rightarrow>
               (case removeDirs sys cfg dataDirMounted w1 of
                  (r, w2, tr2) \<Rightarrow> (r, w2, (CallList, None) # tr @ tr2))))"

section \<open>Notions used to state the properties\<close>

text \<open>The paths of the normal unmounts of a run, in the order they were attempted.\<close>

fun unmount_attempts :: "event list \<Rightarrow> string list" where
  "unmount_attempts [] = []"
| "unmount_attempts ((CallUnmount p, r) # tr) = p # unmount_attempts tr"
| "unmount_attempts (ev # tr) = unmount_attempts tr"

text \<open>The records of a mount list that the loop unmounts: not the data directory itself, and owned.\<close>

definition to_unmount :: "Config \<Rightarrow> MountPoint list \<Rightarrow> MountPoint list" where
  "to_unmount cfg ms = filter (\<lambda>v. Path v \<noteq> k0sVars_DataDir cfg \<and> owned cfg (Path v)) ms"

text \<open>
  The chain of an error: the error itself, then what \<^verbatim>\<open>Unwrap\<close> returns, and so on.
\<close>

fun chain :: "go_error \<Rightarrow> go_error list" where
  "chain (ErrorString s) = [ErrorString s]"
| "chain (PathError opn pth err) = PathError opn pth err # chain err"
| "chain (WrapError msg err) = WrapError msg err # chain err"

fun is_PathError :: "go_error \<Rightarrow> bool" where
  "is_PathError (PathError opn pth err) = True"
| "is_PathError e = False"

text \<open>
  A name: one element of a path, not empty, without separator, and neither \<^verbatim>\<open>.\<close> nor
  \<^verbatim>\<open>..\<close>. \<open>abs_path [c1, ..., cn]\<close> is the absolute path \<^verbatim>\<open>/c1/.../cn\<close>.
\<close>

definition is_name :: "string \<Rightarrow> bool" where
  "is_name c = (c \<noteq> [] \<and> Separator \<notin> set c \<and> c \<noteq> ''.'' \<and> c \<noteq> ''..'')"

definition abs_path :: "string list \<Rightarrow> string" where
  "abs_path cs = concat (map (\<lambda>c. Separator # c) cs)"

section \<open>An in-memory system\<close>

text \<open>
  A system to run the step on concrete inputs: a mount table, the paths whose normal
  unmount fails, the paths whose lazy unmount fails, the errors that the recursive
  deletion of a path returns, and the directories that exist. An unmount that succeeds
  takes the most recent mount at the path out of the table; a deletion removes the
  directories under the path (the path itself too when it returns no error).
\<close>

record fake_world =
  fw_mounts :: "MountPoint list"
  fw_busy :: "string list"
  fw_stuck :: "string list"
  fw_remove_errors :: "(string \<times> go_error) list"
  fw_dirs :: "string list"

fun remove_first_mount :: "string \<Rightarrow> MountPoint list \<Rightarrow> MountPoint list" where
  "remove_first_mount p [] = []"
| "remove_first_mount p (m # ms) = (if Path m = p then ms else m # remove_first_mount p ms)"

definition fake_detach :: "string \<Rightarrow> fake_world \<Rightarrow> fake_world" where
  "fake_detach p w = w\<lparr>fw_mounts := rev (remove_first_mount p (rev (fw_mounts w)))\<rparr>"

definition fake_List :: "fake_world \<Rightarrow> (go_error + MountPoint list) \<times> fake_world" where
  "fake_List w = (Inr (fw_mounts w), w)"

definition fake_Unmount :: "string \<Rightarrow> fake_world \<Rightarrow> go_error option \<times> fake_world" where
  "fake_Unmount p w =
     (if p \<in> set (fw_busy w) then (Some (ErrorString ''device or resource busy''), w)
      else (None, fake_detach p w))"

definition fake_UnmountLazy :: "string \<Rightarrow> fake_world \<Rightarrow> go_error option \<times> fake_world" where
  "fake_UnmountLazy p w =
     (if p \<in> set (fw_stuck w) then (Some (ErrorString ''invalid argument''), w)
      else (None, fake_detach p w))"

definition fake_RemoveAll :: "string \<Rightarrow> fake_world \<Rightarrow> go_error option \<times> fake_world" where
  "fake_RemoveAll p w =
     (case map_of (fw_remove_errors w) p of
        Some e \<Rightarrow> (Some e, w\<lparr>fw_dirs := filter (\<lambda>d. d = p \<or> \<not> isUnderPath d p) (fw_dirs w)\<rparr>)
      | None \<Rightarrow> (None, w\<lparr>fw_dirs := filter (\<lambda>d. \<not> isUnderPath d p) (fw_dirs w)\<rparr>))"

definition fake_os :: "fake_world os" where
  "fake_os = \<lparr>mounter_List = fake_List, mounter_Unmount = fake_Unmount,
              UnmountLazy = fake_UnmountLazy, os_RemoveAll = fake_RemoveAll\<rparr>"

definition mount_at :: "string \<Rightarrow> MountPoint" where
  "mount_at p = \<lparr>Device = ''overlay'', Path = p, Type = ''overlay'', Opts = [], Freq = 0, Pass = 0\<rparr>"

definition cfg_data :: Config where
  "cfg_data = \<lparr>dataDir = ''/data'', runDir = ''/run/k0s'', k0sVars_DataDir = ''/data''\<rparr>"

text \<open>
  The nested mounts \<^verbatim>\<open>/data\<close>, \<^verbatim>\<open>/data/kubelet\<close>, \<^verbatim>\<open>/data/kubelet/pods/x\<close>, listed
  in the order they were made, and machines that hold them.
\<close>

definition nested_mounts :: "MountPoint list" where
  "nested_mounts = map mount_at [''/data'', ''/data/kubelet'', ''/data/kubelet/pods/x'']"

text \<open>The mount at \<^verbatim>\<open>/data/kubelet\<close> can be unmounted neither normally nor lazily.\<close>

definition w_stuck :: fake_world where
  "w_stuck = \<lparr>fw_mounts = nested_mounts, fw_busy = [''/data/kubelet''],
              fw_stuck = [''/data/kubelet''], fw_remove_errors = [],
              fw_dirs = [''/data'', ''/data/kubelet'', ''/run/k0s'']\<rparr>"

definition w_stuck1 :: fake_world where
  "w_stuck1 = w_stuck\<lparr>fw_mounts := map mount_at [''/data'', ''/data/kubelet'']\<rparr>"

text \<open>The mount at \<^verbatim>\<open>/data/kubelet\<close> is busy: only the lazy unmount succeeds.\<close>

definition w_busy :: fake_world where
  "w_busy = \<lparr>fw_mounts = nested_mounts, fw_busy = [''/data/kubelet''],
             fw_stuck = [], fw_remove_errors = [],
             fw_dirs = [''/data'', ''/data/kubelet'', ''/run/k0s'']\<rparr>"

definition w_busy1 :: fake_world where
  "w_busy1 = w_busy\<lparr>fw_mounts := map mount_at [''/data'', ''/data/kubelet'']\<rparr>"

definition w_busy2 :: fake_world where
  "w_busy2 = w_busy\<lparr>fw_mounts := map mount_at [''/data'']\<rparr>"

definition w_busy3 :: fake_world where
  "w_busy3 = w_busy2\<lparr>fw_dirs := []\<rparr>"

definition tr_busy :: "event list" where
  "tr_busy = [(CallList, None), (CallUnmount ''/data/kubelet/pods/x'', None),
              (CallUnmount ''/data/kubelet'', Some (ErrorString ''device or resource busy'')),
              (CallUnmountLazy ''/data/kubelet'', None),
              (CallRemoveAll ''/data'', None), (CallRemoveAll ''/run/k0s'', None)]"

text \<open>Every unmount succeeds.\<close>

definition w_nested :: fake_world where
  "w_nested = \<lparr>fw_mounts = nested_mounts, fw_busy = [], fw_stuck = [], fw_remove_errors = [],
               fw_dirs = [''/data'', ''/data/kubelet'', ''/data/kubelet/pods/x'', ''/run/k0s'']\<rparr>"

definition w_nested1 :: fake_world where
  "w_nested1 = w_nested\<lparr>fw_mounts := [mount_at ''/data'']\<rparr>"

definition w_nested2 :: fake_world where
  "w_nested2 = w_nested1\<lparr>fw_dirs := []\<rparr>"

definition tr_nested_loop :: "event list" where
  "tr_nested_loop = [(CallUnmount ''/data/kubelet/pods/x'', None),
                     (CallUnmount ''/data/kubelet'', None)]"

definition tr_nested :: "event list" where
  "tr_nested = (CallList, None) # tr_nested_loop
                 @ [(CallRemoveAll ''/data'', None), (CallRemoveAll ''/run/k0s'', None)]"

text \<open>Machines for the deletions: scripted errors of \<^verbatim>\<open>os.RemoveAll\<close>, and a machine before and after a run that succeeds.\<close>

definition e_busy :: "string \<Rightarrow> go_error" where
  "e_busy p = PathError ''unlinkat'' p (ErrorString ''device or resource busy'')"

definition w_mounted :: fake_world where
  "w_mounted = \<lparr>fw_mounts = nested_mounts, fw_busy = [], fw_stuck = [],
                fw_remove_errors = [(''/data'', e_busy ''/data''), (''/run/k0s'', e_busy ''/run/k0s'')],
                fw_dirs = [''/data'', ''/data/kubelet'', ''/run/k0s'', ''/run/k0s/status.sock'']\<rparr>"

definition w_mounted1 :: fake_world where
  "w_mounted1 = w_mounted\<lparr>fw_mounts := [mount_at ''/data'']\<rparr>"

definition w_mounted2 :: fake_world where
  "w_mounted2 = w_mounted1\<lparr>fw_dirs := [''/data'', ''/run/k0s'', ''/run/k0s/status.sock'']\<rparr>"

definition w_mounted3 :: fake_world where
  "w_mounted3 = w_mounted1\<lparr>fw_dirs := [''/data'', ''/run/k0s'']\<rparr>"

definition w_sub :: fake_world where
  "w_sub = \<lparr>fw_mounts = nested_mounts, fw_busy = [], fw_stuck = [],
            fw_remove_errors = [(''/data'', e_busy ''/data/kubelet'')],
            fw_dirs = [''/data'', ''/data/kubelet'', ''/run/k0s'']\<rparr>"

definition w_sub1 :: fake_world where
  "w_sub1 = w_sub\<lparr>fw_mounts := [mount_at ''/data'']\<rparr>"

definition w_sub2 :: fake_world where
  "w_sub2 = w_sub1\<lparr>fw_dirs := [''/data'', ''/run/k0s'']\<rparr>"

definition w_sub3 :: fake_world where
  "w_sub3 = w_sub1\<lparr>fw_dirs := [''/data'']\<rparr>"

definition w_first :: fake_world where
  "w_first = \<lparr>fw_mounts = map mount_at [''/'', ''/data/kubelet'', ''/data/kubelet/pods/x'', ''/data2''],
              fw_busy = [], fw_stuck = [], fw_remove_errors = [],
              fw_dirs = [''/'', ''/data'', ''/data/kubelet'', ''/data2'', ''/run/k0s'']\<rparr>"

definition w_clean :: fake_world where
  "w_clean = \<lparr>fw_mounts = map mount_at [''/'', ''/data2''],
              fw_busy = [], fw_stuck = [], fw_remove_errors = [],
              fw_dirs = [''/'', ''/data2'']\<rparr>"

definition cfg_other :: Config where
  "cfg_other = cfg_data\<lparr>runDir := ''/tmp/k0s-run''\<rparr>"

section \<open>The classifier of the tolerated deletion error\<close>

lemma errors_As_find:
  "errors_As_PathError e = Some (opn, pth, inner) \<longleftrightarrow>
     List.find is_PathError (chain e) = Some (PathError opn pth inner)"
  by (induction e) auto

lemma errors_As_None:
  "errors_As_PathError e = None \<longleftrightarrow> (\<forall>x\<in>set (chain e). \<not> is_PathError x)"
  by (induction e) auto

lemma errors_As_wrapped:
  "errors_As_PathError (foldr WrapError msgs e) = errors_As_PathError e"
  by (induction msgs) auto

text \<open>
  C10. \<^verbatim>\<open>errorIsUnlinkat\<close> is false for a nil error and for every error whose chain holds
  no \<^verbatim>\<open>os.PathError\<close>. For any other error it is true exactly when the
  \<^verbatim>\<open>os.PathError\<close> that \<^verbatim>\<open>errors.As\<close> finds in the chain (the first one, at whatever
  depth of wrapping) has the operation \<^verbatim>\<open>unlinkat\<close> and the given directory as its
  path; so it is true for such a path error under any number of \<^verbatim>\<open>%w\<close> wrappers.
\<close>

theorem errorIsUnlinkat_spec:
  "errorIsUnlinkat None dir = False
   \<and> ((\<forall>x\<in>set (chain e). \<not> is_PathError x) \<longrightarrow> errorIsUnlinkat (Some e) dir = False)
   \<and> errorIsUnlinkat (Some e) dir
       = (\<exists>inner. List.find is_PathError (chain e) = Some (PathError ''unlinkat'' dir inner))
   \<and> errorIsUnlinkat (Some (foldr WrapError msgs (PathError ''unlinkat'' dir inner))) dir = True"
proof (intro conjI impI)
  show "errorIsUnlinkat None dir = False"
    by (simp add: errorIsUnlinkat_def)
next
  assume "\<forall>x\<in>set (chain e). \<not> is_PathError x"
  then have "errors_As_PathError e = None" by (simp add: errors_As_None)
  then show "errorIsUnlinkat (Some e) dir = False"
    by (simp add: errorIsUnlinkat_def)
next
  show "errorIsUnlinkat (Some e) dir
       = (\<exists>inner. List.find is_PathError (chain e) = Some (PathError ''unlinkat'' dir inner))"
  proof (cases "errors_As_PathError e")
    case None
    then have "List.find is_PathError (chain e) = None"
      by (simp add: errors_As_None find_None_iff)
    with None show ?thesis by (simp add: errorIsUnlinkat_def)
  next
    case (Some a)
    obtain opn pth inner where a: "a = (opn, pth, inner)" by (cases a)
    from Some a have "List.find is_PathError (chain e) = Some (PathError opn pth inner)"
      by (simp add: errors_As_find)
    with Some a show ?thesis by (auto simp: errorIsUnlinkat_def)
  qed
next
  show "errorIsUnlinkat (Some (foldr WrapError msgs (PathError ''unlinkat'' dir inner))) dir = True"
    by (simp add: errorIsUnlinkat_def errors_As_wrapped)
qed

theorem errorIsUnlinkat_spec_witness:
  "list_all (\<lambda>x. \<not> is_PathError x) (chain (WrapError ''remove: busy'' (ErrorString ''busy'')))
   \<and> errorIsUnlinkat (Some (WrapError ''remove: busy'' (ErrorString ''busy''))) ''/data'' = False"
  using errorIsUnlinkat_spec
    [where e = "WrapError ''remove: busy'' (ErrorString ''busy'')" and dir = "''/data''"]
  by simp

section \<open>The unmount loop\<close>

lemma loop_only_unmounts:
  "unmount_loop sys cfg vs b w = (r, w', tr) \<Longrightarrow> ev \<in> set tr \<Longrightarrow>
     \<exists>v\<in>set vs. Path v \<noteq> k0sVars_DataDir cfg \<and> owned cfg (Path v)
        \<and> (fst ev = CallUnmount (Path v) \<or> fst ev = CallUnmountLazy (Path v))"
proof (induction vs arbitrary: b w r w' tr)
  case Nil
  then show ?case by simp
next
  case (Cons v vs)
  then show ?case
    by (fastforce split: if_splits prod.splits option.splits)
qed

lemma loop_flag:
  "unmount_loop sys cfg vs b w = (Inr b', w', tr) \<Longrightarrow>
     b' = (b \<or> (\<exists>v\<in>set vs. Path v = k0sVars_DataDir cfg))"
proof (induction vs arbitrary: b w w' tr)
  case Nil
  then show ?case by simp
next
  case (Cons v vs)
  then show ?case
    by (fastforce split: if_splits prod.splits option.splits)
qed

lemma loop_completed_no_lazy_failure:
  "unmount_loop sys cfg vs b w = (Inr b', w', tr) \<Longrightarrow> (CallUnmountLazy p, Some e) \<notin> set tr"
proof (induction vs arbitrary: b w w' tr)
  case Nil
  then show ?case by simp
next
  case (Cons v vs)
  then show ?case
    by (fastforce split: if_splits prod.splits option.splits)
qed

lemma loop_lazy_failure_last:
  "unmount_loop sys cfg vs b w = (r, w', tr) \<Longrightarrow> (CallUnmountLazy p, Some e) \<in> set tr \<Longrightarrow>
     r = Inl (ErrorString (''failed unmount '' @ p)) \<and> last tr = (CallUnmountLazy p, Some e)"
proof (induction vs arbitrary: b w r w' tr)
  case Nil
  then show ?case by simp
next
  case (Cons v vs)
  then show ?case
    by (fastforce split: if_splits prod.splits option.splits)
qed

lemma loop_error_shape:
  "unmount_loop sys cfg vs b w = (Inl err, w', tr) \<Longrightarrow>
     \<exists>p e. err = ErrorString (''failed unmount '' @ p) \<and> tr \<noteq> [] \<and> last tr = (CallUnmountLazy p, Some e)"
proof (induction vs arbitrary: b w w' tr)
  case Nil
  then show ?case by simp
next
  case (Cons v vs)
  then show ?case
    by (fastforce split: if_splits prod.splits option.splits)
qed

lemma loop_lazy_after_failed_unmount:
  "unmount_loop sys cfg vs b w = (r, w', tr) \<Longrightarrow> i < length tr \<Longrightarrow>
   tr ! i = (CallUnmountLazy p, x) \<Longrightarrow> 0 < i \<and> (\<exists>e. tr ! (i - 1) = (CallUnmount p, Some e))"
proof (induction vs arbitrary: b w r w' tr i)
  case Nil
  then show ?case by simp
next
  case (Cons v vs)
  then show ?case
    by (fastforce split: if_splits prod.splits option.splits simp: nth_Cons split: nat.splits)
qed

lemma loop_attempts_prefix:
  "unmount_loop sys cfg vs b w = (r, w', tr) \<Longrightarrow>
     prefix (unmount_attempts tr) (map Path (to_unmount cfg vs))
     \<and> ((\<exists>b'. r = Inr b') \<longrightarrow> unmount_attempts tr = map Path (to_unmount cfg vs))"
proof (induction vs arbitrary: b w r w' tr)
  case Nil
  then show ?case by (simp add: to_unmount_def)
next
  case (Cons v vs)
  then show ?case
    by (fastforce simp: to_unmount_def split: if_splits prod.splits option.splits)
qed

lemma loop_append:
  "unmount_loop sys cfg (vs1 @ vs2) b w =
     (case unmount_loop sys cfg vs1 b w of
        (Inl err, w1, tr1) \<Rightarrow> (Inl err, w1, tr1)
      | (Inr b1, w1, tr1) \<Rightarrow>
          (case unmount_loop sys cfg vs2 b1 w1 of (r, w2, tr2) \<Rightarrow> (r, w2, tr1 @ tr2)))"
proof (induction vs1 arbitrary: b w)
  case Nil
  then show ?case by (simp split: prod.splits)
next
  case (Cons v vs1)
  then show ?case
    by (simp split: prod.splits option.splits sum.splits)
qed

lemma removeDirs_only_removes:
  "removeDirs sys cfg b w = (r, w', tr) \<Longrightarrow> ev \<in> set tr \<Longrightarrow> \<exists>q. fst ev = CallRemoveAll q"
  by (auto simp: removeDirs_def split: prod.splits option.splits if_splits)

lemma removeDirs_nonempty:
  "removeDirs sys cfg b w = (r, w', tr) \<Longrightarrow> \<exists>q x tr'. tr = (CallRemoveAll q, x) # tr'"
  by (auto simp: removeDirs_def split: prod.splits option.splits if_splits)

lemma Run_aborted:
  "mounter_List sys w = (Inr ms, w0) \<Longrightarrow> unmount_loop sys cfg (rev ms) False w0 = (Inl err, w1, tr)
   \<Longrightarrow> Run sys cfg w = (Some err, w1, (CallList, None) # tr)"
  by (simp add: Run_def)

lemma Run_completed:
  "mounter_List sys w = (Inr ms, w0) \<Longrightarrow> unmount_loop sys cfg (rev ms) False w0 = (Inr b, w1, tr)
   \<Longrightarrow> removeDirs sys cfg b w1 = (r, w2, tr2)
   \<Longrightarrow> Run sys cfg w = (r, w2, (CallList, None) # tr @ tr2)"
  by (simp add: Run_def)

text \<open>
  C1. Take any record \<open>v\<close> of the mount list that is owned and is not the data directory
  itself, reached by the loop after the records behind it were handled (\<open>vs1\<close>, without
  an abort). If the normal unmount of its path fails and the lazy unmount then fails
  too, \<^verbatim>\<open>Run\<close> returns the error \<^verbatim>\<open>failed unmount <path>\<close>; its last call is that lazy
  unmount, and it has made no call of \<^verbatim>\<open>os.RemoveAll\<close>.
\<close>

theorem both_unmounts_fail_is_fatal:
  assumes "mounter_List sys w = (Inr ms, w0)"
    and "rev ms = vs1 @ v # vs2"
    and "unmount_loop sys cfg vs1 False w0 = (Inr b, w1, tr1)"
    and "Path v \<noteq> k0sVars_DataDir cfg"
    and "owned cfg (Path v)"
    and "mounter_Unmount sys (Path v) w1 = (Some e1, w2)"
    and "UnmountLazy sys (Path v) w2 = (Some e2, w3)"
  shows "Run sys cfg w =
           (Some (ErrorString (''failed unmount '' @ Path v)), w3,
            (CallList, None) # tr1 @ [(CallUnmount (Path v), Some e1),
                                      (CallUnmountLazy (Path v), Some e2)])
         \<and> (\<forall>q x. (CallRemoveAll q, x) \<notin> set (snd (snd (Run sys cfg w))))"
proof -
  let ?tr = "tr1 @ [(CallUnmount (Path v), Some e1), (CallUnmountLazy (Path v), Some e2)]"
  have step: "unmount_loop sys cfg (v # vs2) b w1 =
          (Inl (ErrorString (''failed unmount '' @ Path v)), w3,
           [(CallUnmount (Path v), Some e1), (CallUnmountLazy (Path v), Some e2)])"
    using assms(4-7) by simp
  have loop: "unmount_loop sys cfg (rev ms) False w0 =
          (Inl (ErrorString (''failed unmount '' @ Path v)), w3, ?tr)"
    unfolding assms(2) loop_append assms(3) using step by simp
  have run: "Run sys cfg w =
          (Some (ErrorString (''failed unmount '' @ Path v)), w3, (CallList, None) # ?tr)"
    by (rule Run_aborted [OF assms(1) loop])
  have "(CallRemoveAll q, x) \<notin> set ?tr" for q x
  proof
    assume "(CallRemoveAll q, x) \<in> set ?tr"
    from loop_only_unmounts [OF loop this] show False by auto
  qed
  then show ?thesis using run by simp
qed

theorem both_unmounts_fail_is_fatal_witness:
  "mounter_List fake_os w_stuck = (Inr nested_mounts, w_stuck)
   \<and> rev nested_mounts = [mount_at ''/data/kubelet/pods/x''] @ mount_at ''/data/kubelet'' # [mount_at ''/data'']
   \<and> unmount_loop fake_os cfg_data [mount_at ''/data/kubelet/pods/x''] False w_stuck
        = (Inr False, w_stuck1, [(CallUnmount ''/data/kubelet/pods/x'', None)])
   \<and> Path (mount_at ''/data/kubelet'') \<noteq> k0sVars_DataDir cfg_data
   \<and> owned cfg_data (Path (mount_at ''/data/kubelet''))
   \<and> mounter_Unmount fake_os (Path (mount_at ''/data/kubelet'')) w_stuck1
        = (Some (ErrorString ''device or resource busy''), w_stuck1)
   \<and> UnmountLazy fake_os (Path (mount_at ''/data/kubelet'')) w_stuck1
        = (Some (ErrorString ''invalid argument''), w_stuck1)
   \<and> Run fake_os cfg_data w_stuck =
        (Some (ErrorString ''failed unmount /data/kubelet''), w_stuck1,
         [(CallList, None), (CallUnmount ''/data/kubelet/pods/x'', None),
          (CallUnmount ''/data/kubelet'', Some (ErrorString ''device or resource busy'')),
          (CallUnmountLazy ''/data/kubelet'', Some (ErrorString ''invalid argument''))])"
proof -
  have h1: "mounter_List fake_os w_stuck = (Inr nested_mounts, w_stuck)"
    by code_simp
  have h2: "rev nested_mounts
      = [mount_at ''/data/kubelet/pods/x''] @ mount_at ''/data/kubelet'' # [mount_at ''/data'']"
    by (simp add: nested_mounts_def)
  have h3: "unmount_loop fake_os cfg_data [mount_at ''/data/kubelet/pods/x''] False w_stuck
        = (Inr False, w_stuck1, [(CallUnmount ''/data/kubelet/pods/x'', None)])"
    by code_simp
  have h4: "Path (mount_at ''/data/kubelet'') \<noteq> k0sVars_DataDir cfg_data"
    by code_simp
  have h5: "owned cfg_data (Path (mount_at ''/data/kubelet''))"
    by code_simp
  have h6: "mounter_Unmount fake_os (Path (mount_at ''/data/kubelet'')) w_stuck1
        = (Some (ErrorString ''device or resource busy''), w_stuck1)"
    by code_simp
  have h7: "UnmountLazy fake_os (Path (mount_at ''/data/kubelet'')) w_stuck1
        = (Some (ErrorString ''invalid argument''), w_stuck1)"
    by code_simp
  have p: "Path (mount_at ''/data/kubelet'') = ''/data/kubelet''"
    by (simp add: mount_at_def)
  from both_unmounts_fail_is_fatal [OF h1 h2 h3 h4 h5 h6 h7]
  have "Run fake_os cfg_data w_stuck =
        (Some (ErrorString ''failed unmount /data/kubelet''), w_stuck1,
         [(CallList, None), (CallUnmount ''/data/kubelet/pods/x'', None),
          (CallUnmount ''/data/kubelet'', Some (ErrorString ''device or resource busy'')),
          (CallUnmountLazy ''/data/kubelet'', Some (ErrorString ''invalid argument''))])"
    by (simp add: p)
  with h1 h2 h3 h4 h5 h6 h7 show ?thesis by blast
qed

lemma Run_lazy_after_failed_unmount:
  assumes "Run sys cfg w = (res, w', tr)" and "i < length tr" and "tr ! i = (CallUnmountLazy p, x)"
  shows "0 < i \<and> (\<exists>e. tr ! (i - 1) = (CallUnmount p, Some e))"
proof (cases "mounter_List sys w")
  case (Pair lr w0)
  show ?thesis
  proof (cases lr)
    case (Inl err)
    with Pair assms show ?thesis by (auto simp: Run_def)
  next
    case (Inr ms)
    obtain r w1 tr1 where loop: "unmount_loop sys cfg (rev ms) False w0 = (r, w1, tr1)"
      by (cases "unmount_loop sys cfg (rev ms) False w0") auto
    obtain tr2 where tr: "tr = (CallList, None) # tr1 @ tr2"
      and tr2: "\<forall>ev\<in>set tr2. \<exists>q. fst ev = CallRemoveAll q"
    proof (cases r)
      case (Inl err)
      with Pair Inr loop assms(1) have "tr = (CallList, None) # tr1 @ []"
        by (simp add: Run_def)
      then show ?thesis using that by simp
    next
      case b: (Inr b)
      obtain r2 w2 tr2 where rd: "removeDirs sys cfg b w1 = (r2, w2, tr2)"
        by (cases "removeDirs sys cfg b w1") auto
      with Pair Inr loop b assms(1) have "tr = (CallList, None) # tr1 @ tr2"
        by (simp add: Run_def)
      moreover have "\<forall>ev\<in>set tr2. \<exists>q. fst ev = CallRemoveAll q"
        using removeDirs_only_removes [OF rd] by blast
      ultimately show ?thesis using that by blast
    qed
    from assms(2,3) tr obtain j where i: "i = Suc j" by (cases i) auto
    have j: "j < length tr1"
    proof (rule ccontr)
      assume "\<not> j < length tr1"
      then have "tr ! i = tr2 ! (j - length tr1)" and "j - length tr1 < length tr2"
        using tr i assms(2) by (auto simp: nth_append)
      then have "tr ! i \<in> set tr2" by (metis nth_mem)
      with tr2 assms(3) show False by auto
    qed
    then have at: "tr1 ! j = (CallUnmountLazy p, x)"
      using tr i assms(3) by (simp add: nth_append)
    from loop_lazy_after_failed_unmount [OF loop j at]
    obtain e where "0 < j" and e: "tr1 ! (j - 1) = (CallUnmount p, Some e)" by blast
    then obtain k where k: "j = Suc k" by (cases j) auto
    with e j have "tr ! (i - 1) = (CallUnmount p, Some e)"
      using tr i by (simp add: nth_append)
    with i show ?thesis by simp
  qed
qed

text \<open>
  C6. In every run, a lazy unmount of a path comes directly after a normal unmount of
  that path that failed. And for an owned record whose normal unmount fails and whose
  lazy unmount succeeds, the loop makes exactly these two calls for the record and goes
  on with the records that remain, from the state the lazy unmount left: the normal
  unmount is not tried again, and the result is the result of the rest of the loop.
\<close>

theorem lazy_unmount_is_fallback:
  "(Run sys cfg w = (res, w', tr) \<longrightarrow> i < length tr \<longrightarrow> tr ! i = (CallUnmountLazy p, x) \<longrightarrow>
      0 < i \<and> (\<exists>e. tr ! (i - 1) = (CallUnmount p, Some e)))
   \<and> (Path v \<noteq> k0sVars_DataDir cfg \<longrightarrow> owned cfg (Path v) \<longrightarrow>
      mounter_Unmount sys (Path v) w1 = (Some e1, w2) \<longrightarrow>
      UnmountLazy sys (Path v) w2 = (None, w3) \<longrightarrow>
      unmount_loop sys cfg (v # vs) b w1 =
        (case unmount_loop sys cfg vs b w3 of
           (r, w4, tr2) \<Rightarrow>
             (r, w4, (CallUnmount (Path v), Some e1) # (CallUnmountLazy (Path v), None) # tr2)))"
proof -
  have "0 < i \<and> (\<exists>e. tr ! (i - 1) = (CallUnmount p, Some e))"
    if "Run sys cfg w = (res, w', tr)" "i < length tr" "tr ! i = (CallUnmountLazy p, x)"
    by (rule Run_lazy_after_failed_unmount [OF that])
  moreover have "unmount_loop sys cfg (v # vs) b w1 =
        (case unmount_loop sys cfg vs b w3 of
           (r, w4, tr2) \<Rightarrow>
             (r, w4, (CallUnmount (Path v), Some e1) # (CallUnmountLazy (Path v), None) # tr2))"
    if "Path v \<noteq> k0sVars_DataDir cfg" "owned cfg (Path v)"
      "mounter_Unmount sys (Path v) w1 = (Some e1, w2)" "UnmountLazy sys (Path v) w2 = (None, w3)"
    using that by simp
  ultimately show ?thesis by blast
qed

theorem lazy_unmount_is_fallback_witness:
  "Run fake_os cfg_data w_busy = (None, w_busy3, tr_busy)
   \<and> 3 < length tr_busy
   \<and> tr_busy ! 3 = (CallUnmountLazy ''/data/kubelet'', None)
   \<and> (\<exists>e. tr_busy ! (3 - 1) = (CallUnmount ''/data/kubelet'', Some e))
   \<and> Path (mount_at ''/data/kubelet'') \<noteq> k0sVars_DataDir cfg_data
   \<and> owned cfg_data (Path (mount_at ''/data/kubelet''))
   \<and> mounter_Unmount fake_os (Path (mount_at ''/data/kubelet'')) w_busy1
        = (Some (ErrorString ''device or resource busy''), w_busy1)
   \<and> UnmountLazy fake_os (Path (mount_at ''/data/kubelet'')) w_busy1 = (None, w_busy2)
   \<and> unmount_loop fake_os cfg_data [mount_at ''/data/kubelet'', mount_at ''/data''] False w_busy1
        = (case unmount_loop fake_os cfg_data [mount_at ''/data''] False w_busy2 of
             (r, w4, tr2) \<Rightarrow>
               (r, w4, (CallUnmount (Path (mount_at ''/data/kubelet'')),
                          Some (ErrorString ''device or resource busy''))
                       # (CallUnmountLazy (Path (mount_at ''/data/kubelet'')), None) # tr2))"
proof -
  have h1: "Run fake_os cfg_data w_busy = (None, w_busy3, tr_busy)"
    by code_simp
  have h2: "3 < length tr_busy"
    by (simp add: tr_busy_def)
  have h3: "tr_busy ! 3 = (CallUnmountLazy ''/data/kubelet'', None)"
    by (simp add: tr_busy_def)
  have h4: "Path (mount_at ''/data/kubelet'') \<noteq> k0sVars_DataDir cfg_data"
    by code_simp
  have h5: "owned cfg_data (Path (mount_at ''/data/kubelet''))"
    by code_simp
  have h6: "mounter_Unmount fake_os (Path (mount_at ''/data/kubelet'')) w_busy1
        = (Some (ErrorString ''device or resource busy''), w_busy1)"
    by code_simp
  have h7: "UnmountLazy fake_os (Path (mount_at ''/data/kubelet'')) w_busy1 = (None, w_busy2)"
    by code_simp
  note inst = lazy_unmount_is_fallback
    [where sys = fake_os and cfg = cfg_data and w = w_busy and res = None and w' = w_busy3
       and tr = tr_busy and i = 3 and p = "''/data/kubelet''" and x = None
       and v = "mount_at ''/data/kubelet''" and vs = "[mount_at ''/data'']" and b = False
       and ?w1.0 = w_busy1 and ?e1.0 = "ErrorString ''device or resource busy''"
       and ?w2.0 = w_busy1 and ?w3.0 = w_busy2]
  from inst h1 h2 h3 have c1: "\<exists>e. tr_busy ! (3 - 1) = (CallUnmount ''/data/kubelet'', Some e)"
    by blast
  from inst h4 h5 h6 h7
  have c2: "unmount_loop fake_os cfg_data [mount_at ''/data/kubelet'', mount_at ''/data''] False w_busy1
        = (case unmount_loop fake_os cfg_data [mount_at ''/data''] False w_busy2 of
             (r, w4, tr2) \<Rightarrow>
               (r, w4, (CallUnmount (Path (mount_at ''/data/kubelet'')),
                          Some (ErrorString ''device or resource busy''))
                       # (CallUnmountLazy (Path (mount_at ''/data/kubelet'')), None) # tr2))"
    by blast
  from h1 h2 h3 c1 h4 h5 h6 h7 c2 show ?thesis by blast
qed

section \<open>Order of the unmounts and the data directory\<close>

lemma Run_trace_shape:
  assumes "mounter_List sys w = (Inr ms, w0)"
    and "unmount_loop sys cfg (rev ms) False w0 = (r, w1, tr1)"
    and "Run sys cfg w = (res, w', tr)"
  shows "\<exists>tr2. tr = (CallList, None) # tr1 @ tr2
           \<and> (\<forall>ev\<in>set tr2. \<exists>q. fst ev = CallRemoveAll q)
           \<and> (tr2 \<noteq> [] \<longleftrightarrow> (\<exists>b. r = Inr b))"
proof (cases r)
  case (Inl err)
  with assms have "tr = (CallList, None) # tr1 @ []"
    by (simp add: Run_def)
  with Inl show ?thesis by auto
next
  case (Inr b)
  obtain r2 w2 tr2 where rd: "removeDirs sys cfg b w1 = (r2, w2, tr2)"
    by (cases "removeDirs sys cfg b w1") auto
  with assms Inr have "tr = (CallList, None) # tr1 @ tr2"
    by (simp add: Run_def)
  moreover have "\<forall>ev\<in>set tr2. \<exists>q. fst ev = CallRemoveAll q"
    using removeDirs_only_removes [OF rd] by blast
  moreover have "tr2 \<noteq> []"
    using removeDirs_nonempty [OF rd] by auto
  ultimately show ?thesis using Inr by blast
qed

lemma unmount_attempts_append:
  "unmount_attempts (tr1 @ tr2) = unmount_attempts tr1 @ unmount_attempts tr2"
  by (induction tr1 rule: unmount_attempts.induct) auto

lemma unmount_attempts_removes:
  "\<forall>ev\<in>set tr. \<exists>q. fst ev = CallRemoveAll q \<Longrightarrow> unmount_attempts tr = []"
  by (induction tr rule: unmount_attempts.induct) auto

lemma to_unmount_rev: "to_unmount cfg (rev ms) = rev (to_unmount cfg ms)"
  by (simp add: to_unmount_def rev_filter)

lemma to_unmount_paths:
  "map Path (to_unmount cfg ms)
     = filter (\<lambda>p. p \<noteq> k0sVars_DataDir cfg \<and> owned cfg p) (map Path ms)"
  by (simp add: to_unmount_def filter_map comp_def)

lemma nested_under_data:
  "isUnderPath ''/data/kubelet'' ''/data''" "isUnderPath ''/data/kubelet/pods/x'' ''/data''"
  by code_simp+

text \<open>
  C3. The normal unmounts of a run are attempted in the exact reverse of the order of the
  mount list: their paths, in the order of the calls, are an initial part of the reversed
  list of the records to unmount (owned, and not the data directory itself), and all of
  it when the run gets as far as a deletion. So of two such records the one listed later
  is attempted first. For the list \<^verbatim>\<open>/data\<close>, \<^verbatim>\<open>/data/kubelet\<close>,
  \<^verbatim>\<open>/data/kubelet/pods/x\<close> with the data directory \<^verbatim>\<open>/data\<close> the attempts are an
  initial part of \<^verbatim>\<open>/data/kubelet/pods/x\<close>, \<^verbatim>\<open>/data/kubelet\<close>, and \<^verbatim>\<open>/data\<close> is
  not among them.
\<close>

theorem unmounts_in_reverse_order:
  assumes "mounter_List sys w = (Inr ms, w0)" and "Run sys cfg w = (res, w', tr)"
  shows "prefix (unmount_attempts tr) (rev (map Path (to_unmount cfg ms)))
       \<and> ((\<exists>q x. (CallRemoveAll q, x) \<in> set tr) \<longrightarrow>
            unmount_attempts tr = rev (map Path (to_unmount cfg ms)))
       \<and> (map Path ms = [''/data'', ''/data/kubelet'', ''/data/kubelet/pods/x''] \<longrightarrow>
            k0sVars_DataDir cfg = ''/data'' \<longrightarrow>
            prefix (unmount_attempts tr) [''/data/kubelet/pods/x'', ''/data/kubelet''])"
proof -
  obtain r w1 tr1 where loop: "unmount_loop sys cfg (rev ms) False w0 = (r, w1, tr1)"
    by (cases "unmount_loop sys cfg (rev ms) False w0") auto
  from Run_trace_shape [OF assms(1) loop assms(2)]
  obtain tr2 where tr: "tr = (CallList, None) # tr1 @ tr2"
    and tr2: "\<forall>ev\<in>set tr2. \<exists>q. fst ev = CallRemoveAll q"
    and fin: "tr2 \<noteq> [] \<longleftrightarrow> (\<exists>b. r = Inr b)" by blast
  have att: "unmount_attempts tr = unmount_attempts tr1"
    using tr unmount_attempts_removes [OF tr2] by (simp add: unmount_attempts_append)
  have paths: "map Path (to_unmount cfg (rev ms)) = rev (map Path (to_unmount cfg ms))"
    by (simp add: to_unmount_rev rev_map)
  from loop_attempts_prefix [OF loop]
  have p: "prefix (unmount_attempts tr1) (map Path (to_unmount cfg (rev ms)))"
    and full: "(\<exists>b'. r = Inr b') \<longrightarrow> unmount_attempts tr1 = map Path (to_unmount cfg (rev ms))"
    by blast+
  have c1: "prefix (unmount_attempts tr) (rev (map Path (to_unmount cfg ms)))"
    using p by (simp add: att paths)
  have c2: "unmount_attempts tr = rev (map Path (to_unmount cfg ms))"
    if "\<exists>q x. (CallRemoveAll q, x) \<in> set tr"
  proof -
    from that obtain q x where "(CallRemoveAll q, x) \<in> set tr" by blast
    with tr have "(CallRemoveAll q, x) \<in> set tr1 \<or> (CallRemoveAll q, x) \<in> set tr2" by auto
    moreover have "(CallRemoveAll q, x) \<notin> set tr1"
      using loop_only_unmounts [OF loop] by fastforce
    ultimately have "tr2 \<noteq> []" by auto
    with fin full show ?thesis by (simp add: att paths)
  qed
  have c3: "prefix (unmount_attempts tr) [''/data/kubelet/pods/x'', ''/data/kubelet'']"
    if "map Path ms = [''/data'', ''/data/kubelet'', ''/data/kubelet/pods/x'']"
      and "k0sVars_DataDir cfg = ''/data''"
  proof -
    have "map Path (to_unmount cfg ms) = [''/data/kubelet'', ''/data/kubelet/pods/x'']"
      using that nested_under_data by (simp add: to_unmount_paths owned_def)
    with c1 show ?thesis by simp
  qed
  from c1 c2 c3 show ?thesis by blast
qed

theorem unmounts_in_reverse_order_witness:
  "mounter_List fake_os w_nested = (Inr nested_mounts, w_nested)
   \<and> Run fake_os cfg_data w_nested = (None, w_nested2, tr_nested)
   \<and> (\<exists>q x. (CallRemoveAll q, x) \<in> set tr_nested)
   \<and> map Path nested_mounts = [''/data'', ''/data/kubelet'', ''/data/kubelet/pods/x'']
   \<and> k0sVars_DataDir cfg_data = ''/data''
   \<and> prefix (unmount_attempts tr_nested) (rev (map Path (to_unmount cfg_data nested_mounts)))
   \<and> unmount_attempts tr_nested = rev (map Path (to_unmount cfg_data nested_mounts))
   \<and> prefix (unmount_attempts tr_nested) [''/data/kubelet/pods/x'', ''/data/kubelet'']
   \<and> unmount_attempts tr_nested = [''/data/kubelet/pods/x'', ''/data/kubelet'']"
proof -
  have h1: "mounter_List fake_os w_nested = (Inr nested_mounts, w_nested)"
    by code_simp
  have h2: "Run fake_os cfg_data w_nested = (None, w_nested2, tr_nested)"
    by code_simp
  have h3: "\<exists>q x. (CallRemoveAll q, x) \<in> set tr_nested"
    by (auto simp: tr_nested_def)
  have h4: "map Path nested_mounts = [''/data'', ''/data/kubelet'', ''/data/kubelet/pods/x'']"
    by (simp add: nested_mounts_def mount_at_def)
  have h5: "k0sVars_DataDir cfg_data = ''/data''"
    by (simp add: cfg_data_def)
  have e: "unmount_attempts tr_nested = [''/data/kubelet/pods/x'', ''/data/kubelet'']"
    by (simp add: tr_nested_def tr_nested_loop_def)
  from unmounts_in_reverse_order [OF h1 h2] h3 h4 h5 e show ?thesis
    by (simp add: h1 h2)
qed

text \<open>
  C4. A run never calls the normal or the lazy unmount on the path of the data directory
  (\<^verbatim>\<open>k0sVars.DataDir\<close>), so a record with that path is never unmounted; and when the
  loop ends without an abort, \<^verbatim>\<open>dataDirMounted\<close> is true exactly when some record of
  the mount list has that path.
\<close>

theorem dataDir_mount_never_unmounted:
  assumes "mounter_List sys w = (Inr ms, w0)"
    and "unmount_loop sys cfg (rev ms) False w0 = (r, w1, tr1)"
    and "Run sys cfg w = (res, w', tr)"
  shows "(\<forall>x. (CallUnmount (k0sVars_DataDir cfg), x) \<notin> set tr
              \<and> (CallUnmountLazy (k0sVars_DataDir cfg), x) \<notin> set tr)
       \<and> (\<forall>b. r = Inr b \<longrightarrow> b = (\<exists>m\<in>set ms. Path m = k0sVars_DataDir cfg))"
proof -
  from Run_trace_shape [OF assms]
  obtain tr2 where tr: "tr = (CallList, None) # tr1 @ tr2"
    and tr2: "\<forall>ev\<in>set tr2. \<exists>q. fst ev = CallRemoveAll q" by blast
  have no1: "ev \<in> set tr1 \<Longrightarrow> fst ev \<noteq> CallUnmount (k0sVars_DataDir cfg)
               \<and> fst ev \<noteq> CallUnmountLazy (k0sVars_DataDir cfg)" for ev
    using loop_only_unmounts [OF assms(2)] by fastforce
  have no: "ev \<in> set tr \<Longrightarrow> fst ev \<noteq> CallUnmount (k0sVars_DataDir cfg)
               \<and> fst ev \<noteq> CallUnmountLazy (k0sVars_DataDir cfg)" for ev
  proof -
    assume "ev \<in> set tr"
    with tr have "ev = (CallList, None) \<or> ev \<in> set tr1 \<or> ev \<in> set tr2" by auto
    then show ?thesis
    proof (elim disjE)
      assume "ev = (CallList, None)" then show ?thesis by simp
    next
      assume "ev \<in> set tr1" then show ?thesis by (rule no1)
    next
      assume "ev \<in> set tr2"
      with tr2 obtain q where "fst ev = CallRemoveAll q" by blast
      then show ?thesis by simp
    qed
  qed
  have a: "\<forall>x. (CallUnmount (k0sVars_DataDir cfg), x) \<notin> set tr
              \<and> (CallUnmountLazy (k0sVars_DataDir cfg), x) \<notin> set tr"
    using no by fastforce
  have b: "\<forall>b. r = Inr b \<longrightarrow> b = (\<exists>m\<in>set ms. Path m = k0sVars_DataDir cfg)"
    using loop_flag [of sys cfg "rev ms" False w0 _ w1 tr1] assms(2) by auto
  from a b show ?thesis by blast
qed

theorem dataDir_mount_never_unmounted_witness:
  "mounter_List fake_os w_nested = (Inr nested_mounts, w_nested)
   \<and> unmount_loop fake_os cfg_data (rev nested_mounts) False w_nested
        = (Inr True, w_nested1, tr_nested_loop)
   \<and> Run fake_os cfg_data w_nested = (None, w_nested2, tr_nested)
   \<and> (\<forall>x. (CallUnmount (k0sVars_DataDir cfg_data), x) \<notin> set tr_nested
          \<and> (CallUnmountLazy (k0sVars_DataDir cfg_data), x) \<notin> set tr_nested)
   \<and> (\<exists>m\<in>set nested_mounts. Path m = k0sVars_DataDir cfg_data)"
proof -
  have h1: "mounter_List fake_os w_nested = (Inr nested_mounts, w_nested)"
    by code_simp
  have h2: "unmount_loop fake_os cfg_data (rev nested_mounts) False w_nested
        = (Inr True, w_nested1, tr_nested_loop)"
    by code_simp
  have h3: "Run fake_os cfg_data w_nested = (None, w_nested2, tr_nested)"
    by code_simp
  from dataDir_mount_never_unmounted [OF h1 h2 h3] h1 h2 h3 show ?thesis
    by blast
qed

section \<open>The deletions\<close>

lemma removeDirs_continues:
  assumes "os_RemoveAll sys (dataDir cfg) w1 = (r1, w2)"
    and "r1 = None \<or> (b \<and> errorIsUnlinkat r1 (dataDir cfg))"
    and "os_RemoveAll sys (runDir cfg) w2 = (r2, w3)"
  shows "removeDirs sys cfg b w1 =
           (map_option (\<lambda>e. WrapError (''failed to delete '' @ runDir cfg @ '': '' @ Error e) e) r2,
            w3, [(CallRemoveAll (dataDir cfg), r1), (CallRemoveAll (runDir cfg), r2)])"
  using assms by (cases r1; cases r2) (auto simp: removeDirs_def errorIsUnlinkat_def)

lemma removeDirs_fatal:
  assumes "os_RemoveAll sys (dataDir cfg) w1 = (Some err, w2)"
    and "\<not> (b \<and> errorIsUnlinkat (Some err) (dataDir cfg))"
  shows "removeDirs sys cfg b w1 =
           (Some (WrapError ((if b then ''failed to delete contents of mounted data-dir: ''
                              else ''failed to delete k0s generated data-dir: '') @ Error err) err),
            w2, [(CallRemoveAll (dataDir cfg), Some err)])"
  using assms by (auto simp: removeDirs_def)

lemma errorIsUnlinkat_find:
  "errorIsUnlinkat (Some e) dir
     = (\<exists>inner. List.find is_PathError (chain e) = Some (PathError ''unlinkat'' dir inner))"
proof (cases "errors_As_PathError e")
  case None
  then have "List.find is_PathError (chain e) = None"
    by (simp add: errors_As_None find_None_iff)
  with None show ?thesis by (simp add: errorIsUnlinkat_def)
next
  case (Some a)
  obtain opn pth inner where a: "a = (opn, pth, inner)" by (cases a)
  from Some a have "List.find is_PathError (chain e) = Some (PathError opn pth inner)"
    by (simp add: errors_As_find)
  with Some a show ?thesis by (auto simp: errorIsUnlinkat_def)
qed

text \<open>
  C7. When the deletion of the data directory is over, by returning no error or by the
  tolerated error (\<^verbatim>\<open>dataDirMounted\<close> and \<^verbatim>\<open>errorIsUnlinkat\<close>), \<^verbatim>\<open>Run\<close> calls
  \<^verbatim>\<open>os.RemoveAll\<close> on the run directory next; it returns \<^verbatim>\<open>nil\<close> when that call
  returns \<^verbatim>\<open>nil\<close>, and the wrapped error \<^verbatim>\<open>failed to delete <runDir>: ...\<close> for every
  error the call returns, whatever its shape.
\<close>

theorem runDir_deletion_failure_is_fatal:
  assumes "mounter_List sys w = (Inr ms, w0)"
    and "unmount_loop sys cfg (rev ms) False w0 = (Inr b, w1, tr1)"
    and "os_RemoveAll sys (dataDir cfg) w1 = (r1, w2)"
    and "r1 = None \<or> (b \<and> errorIsUnlinkat r1 (dataDir cfg))"
    and "os_RemoveAll sys (runDir cfg) w2 = (r2, w3)"
  shows "Run sys cfg w =
           (map_option (\<lambda>e. WrapError (''failed to delete '' @ runDir cfg @ '': '' @ Error e) e) r2,
            w3, (CallList, None) # tr1 @ [(CallRemoveAll (dataDir cfg), r1),
                                          (CallRemoveAll (runDir cfg), r2)])
         \<and> ((fst (Run sys cfg w) = None) = (r2 = None))"
proof -
  have "Run sys cfg w =
           (map_option (\<lambda>e. WrapError (''failed to delete '' @ runDir cfg @ '': '' @ Error e) e) r2,
            w3, (CallList, None) # tr1 @ [(CallRemoveAll (dataDir cfg), r1),
                                          (CallRemoveAll (runDir cfg), r2)])"
    by (rule Run_completed [OF assms(1,2) removeDirs_continues [OF assms(3,4,5)]])
  then show ?thesis by simp
qed

text \<open>
  C2. Let the loop end with the flag \<open>b\<close> (\<^verbatim>\<open>dataDirMounted\<close>) and let the deletion of
  the data directory fail with \<open>err\<close>. If \<open>b\<close> holds and the \<^verbatim>\<open>os.PathError\<close> that
  \<^verbatim>\<open>errors.As\<close> finds in \<open>err\<close> has the operation \<^verbatim>\<open>unlinkat\<close> and exactly the data
  directory as its path, \<^verbatim>\<open>Run\<close> goes on to delete the run directory. In every other
  case (\<open>b\<close> false, no path error, another operation, another path such as a path below
  the data directory) \<^verbatim>\<open>Run\<close> returns a wrapped error and does not touch the run
  directory.
\<close>

theorem dataDir_failure_tolerated_iff:
  assumes "mounter_List sys w = (Inr ms, w0)"
    and "unmount_loop sys cfg (rev ms) False w0 = (Inr b, w1, tr1)"
    and "os_RemoveAll sys (dataDir cfg) w1 = (Some err, w2)"
    and "os_RemoveAll sys (runDir cfg) w2 = (r2, w3)"
  shows "if b \<and> (\<exists>inner. List.find is_PathError (chain err)
                          = Some (PathError ''unlinkat'' (dataDir cfg) inner))
         then Run sys cfg w =
                (map_option (\<lambda>e. WrapError (''failed to delete '' @ runDir cfg @ '': '' @ Error e) e) r2,
                 w3, (CallList, None) # tr1 @ [(CallRemoveAll (dataDir cfg), Some err),
                                               (CallRemoveAll (runDir cfg), r2)])
         else Run sys cfg w =
                (Some (WrapError ((if b then ''failed to delete contents of mounted data-dir: ''
                                   else ''failed to delete k0s generated data-dir: '') @ Error err) err),
                 w2, (CallList, None) # tr1 @ [(CallRemoveAll (dataDir cfg), Some err)])"
proof (cases "b \<and> errorIsUnlinkat (Some err) (dataDir cfg)")
  case True
  then have "Some err = None \<or> (b \<and> errorIsUnlinkat (Some err) (dataDir cfg))" by simp
  from Run_completed [OF assms(1,2) removeDirs_continues [OF assms(3) this assms(4)]] True
  show ?thesis by (simp add: errorIsUnlinkat_find)
next
  case False
  from Run_completed [OF assms(1,2) removeDirs_fatal [OF assms(3) False]] False
  show ?thesis by (simp add: errorIsUnlinkat_find)
qed

lemma loop_nothing_to_do:
  "\<forall>m\<in>set vs. Path m \<noteq> k0sVars_DataDir cfg \<and> \<not> owned cfg (Path m)
   \<Longrightarrow> unmount_loop sys cfg vs b w = (Inr b, w, [])"
  by (induction vs) auto

text \<open>
  C8. In a state where listing the mounts changes nothing, no listed record is owned or
  is the data directory, and deleting the data directory and the run directory changes
  nothing and returns \<^verbatim>\<open>nil\<close> (as \<^verbatim>\<open>os.RemoveAll\<close> does on a path that does not exist),
  \<^verbatim>\<open>Run\<close> returns \<^verbatim>\<open>nil\<close>, leaves the state as it was, and calls no unmount.
\<close>

theorem Run_idempotent_after_success:
  assumes "mounter_List sys w = (Inr ms, w)"
    and "\<forall>m\<in>set ms. Path m \<noteq> k0sVars_DataDir cfg \<and> \<not> owned cfg (Path m)"
    and "os_RemoveAll sys (dataDir cfg) w = (None, w)"
    and "os_RemoveAll sys (runDir cfg) w = (None, w)"
  shows "Run sys cfg w = (None, w, [(CallList, None), (CallRemoveAll (dataDir cfg), None),
                                    (CallRemoveAll (runDir cfg), None)])"
proof -
  have loop: "unmount_loop sys cfg (rev ms) False w = (Inr False, w, [])"
    using assms(2) by (intro loop_nothing_to_do) simp
  have "None = None \<or> (False \<and> errorIsUnlinkat None (dataDir cfg))" by simp
  from Run_completed [OF assms(1) loop removeDirs_continues [OF assms(3) this assms(4)]]
  show ?thesis by simp
qed

lemma owned_cong:
  "dataDir cfg = dataDir cfg' \<Longrightarrow> k0sVars_DataDir cfg = k0sVars_DataDir cfg'
   \<Longrightarrow> owned cfg p = owned cfg' p"
  by (simp add: owned_def)

lemma unmount_loop_cong:
  assumes "dataDir cfg = dataDir cfg'" and "k0sVars_DataDir cfg = k0sVars_DataDir cfg'"
  shows "unmount_loop sys cfg vs b w = unmount_loop sys cfg' vs b w"
proof (induction vs arbitrary: b w)
  case Nil
  show ?case by simp
next
  case (Cons v vs)
  have o: "owned cfg (Path v) = owned cfg' (Path v)"
    by (rule owned_cong [OF assms])
  show ?case
    by (simp add: Cons o assms(2) split: prod.splits option.splits)
qed

text \<open>
  C9. The kubelet directory of the ownership test is \<^verbatim>\<open>filepath.Join(dataDir, "kubelet")\<close>,
  for a non-empty \<^verbatim>\<open>dataDir\<close> the cleaned \<^verbatim>\<open>dataDir + "/kubelet"\<close>; it is no field of
  the configuration. So two configurations with the same \<^verbatim>\<open>dataDir\<close> and the same
  \<^verbatim>\<open>k0sVars.DataDir\<close> own the same paths, unmount the same records and run the same
  loop.
\<close>

theorem owned_determined_by_data_dirs:
  "owned cfg p = (isUnderPath p (Join [dataDir cfg, ''kubelet''])
                  \<or> isUnderPath p (k0sVars_DataDir cfg))
   \<and> (dataDir cfg \<noteq> [] \<longrightarrow> Join [dataDir cfg, ''kubelet''] = Clean (dataDir cfg @ ''/kubelet''))
   \<and> (dataDir cfg = dataDir cfg' \<longrightarrow> k0sVars_DataDir cfg = k0sVars_DataDir cfg' \<longrightarrow>
        owned cfg = owned cfg' \<and> to_unmount cfg = to_unmount cfg'
        \<and> unmount_loop sys cfg = unmount_loop sys cfg')"
proof -
  have a: "owned cfg p = (isUnderPath p (Join [dataDir cfg, ''kubelet''])
                  \<or> isUnderPath p (k0sVars_DataDir cfg))"
    by (simp add: owned_def)
  have b: "Join [dataDir cfg, ''kubelet''] = Clean (dataDir cfg @ ''/kubelet'')"
    if "dataDir cfg \<noteq> []"
    using that by (simp add: Separator_def)
  have c: "owned cfg = owned cfg' \<and> to_unmount cfg = to_unmount cfg'
        \<and> unmount_loop sys cfg = unmount_loop sys cfg'"
    if h: "dataDir cfg = dataDir cfg'" "k0sVars_DataDir cfg = k0sVars_DataDir cfg'"
  proof -
    have o: "owned cfg = owned cfg'"
      using owned_cong [OF h] by (intro ext)
    have "to_unmount cfg = to_unmount cfg'"
      by (intro ext) (simp add: to_unmount_def o h(2))
    moreover have "unmount_loop sys cfg = unmount_loop sys cfg'"
      using unmount_loop_cong [OF h] by (intro ext)
    ultimately show ?thesis using o by blast
  qed
  from a b c show ?thesis by blast
qed

theorem runDir_deletion_failure_is_fatal_witness:
  "mounter_List fake_os w_mounted = (Inr nested_mounts, w_mounted)
   \<and> unmount_loop fake_os cfg_data (rev nested_mounts) False w_mounted
        = (Inr True, w_mounted1, tr_nested_loop)
   \<and> os_RemoveAll fake_os (dataDir cfg_data) w_mounted1 = (Some (e_busy ''/data''), w_mounted2)
   \<and> errorIsUnlinkat (Some (e_busy ''/data'')) (dataDir cfg_data)
   \<and> os_RemoveAll fake_os (runDir cfg_data) w_mounted2 = (Some (e_busy ''/run/k0s''), w_mounted3)
   \<and> Run fake_os cfg_data w_mounted =
        (Some (WrapError ''failed to delete /run/k0s: unlinkat /run/k0s: device or resource busy''
                 (e_busy ''/run/k0s'')),
         w_mounted3,
         (CallList, None) # tr_nested_loop
           @ [(CallRemoveAll ''/data'', Some (e_busy ''/data'')),
              (CallRemoveAll ''/run/k0s'', Some (e_busy ''/run/k0s''))])"
proof -
  have h1: "mounter_List fake_os w_mounted = (Inr nested_mounts, w_mounted)"
    by code_simp
  have h2: "unmount_loop fake_os cfg_data (rev nested_mounts) False w_mounted
        = (Inr True, w_mounted1, tr_nested_loop)"
    by code_simp
  have h3: "os_RemoveAll fake_os (dataDir cfg_data) w_mounted1 = (Some (e_busy ''/data''), w_mounted2)"
    by code_simp
  have h4: "errorIsUnlinkat (Some (e_busy ''/data'')) (dataDir cfg_data)"
    by code_simp
  have h5: "os_RemoveAll fake_os (runDir cfg_data) w_mounted2 = (Some (e_busy ''/run/k0s''), w_mounted3)"
    by code_simp
  from h4 have h4': "Some (e_busy ''/data'') = None \<or> (True \<and> errorIsUnlinkat (Some (e_busy ''/data'')) (dataDir cfg_data))"
    by simp
  from runDir_deletion_failure_is_fatal [OF h1 h2 h3 h4' h5]
  have "Run fake_os cfg_data w_mounted =
        (Some (WrapError ''failed to delete /run/k0s: unlinkat /run/k0s: device or resource busy''
                 (e_busy ''/run/k0s'')),
         w_mounted3,
         (CallList, None) # tr_nested_loop
           @ [(CallRemoveAll ''/data'', Some (e_busy ''/data'')),
              (CallRemoveAll ''/run/k0s'', Some (e_busy ''/run/k0s''))])"
    by (simp add: cfg_data_def e_busy_def)
  with h1 h2 h3 h4 h5 show ?thesis by blast
qed

theorem dataDir_failure_tolerated_iff_witness:
  "mounter_List fake_os w_sub = (Inr nested_mounts, w_sub)
   \<and> unmount_loop fake_os cfg_data (rev nested_mounts) False w_sub
        = (Inr True, w_sub1, tr_nested_loop)
   \<and> os_RemoveAll fake_os (dataDir cfg_data) w_sub1 = (Some (e_busy ''/data/kubelet''), w_sub2)
   \<and> os_RemoveAll fake_os (runDir cfg_data) w_sub2 = (None, w_sub3)
   \<and> Run fake_os cfg_data w_sub =
        (Some (WrapError
           ''failed to delete contents of mounted data-dir: unlinkat /data/kubelet: device or resource busy''
           (e_busy ''/data/kubelet'')),
         w_sub2,
         (CallList, None) # tr_nested_loop
           @ [(CallRemoveAll ''/data'', Some (e_busy ''/data/kubelet''))])
   \<and> mounter_List fake_os w_mounted = (Inr nested_mounts, w_mounted)
   \<and> unmount_loop fake_os cfg_data (rev nested_mounts) False w_mounted
        = (Inr True, w_mounted1, tr_nested_loop)
   \<and> os_RemoveAll fake_os (dataDir cfg_data) w_mounted1 = (Some (e_busy ''/data''), w_mounted2)
   \<and> os_RemoveAll fake_os (runDir cfg_data) w_mounted2 = (Some (e_busy ''/run/k0s''), w_mounted3)
   \<and> snd (snd (Run fake_os cfg_data w_mounted)) =
         (CallList, None) # tr_nested_loop
           @ [(CallRemoveAll ''/data'', Some (e_busy ''/data'')),
              (CallRemoveAll ''/run/k0s'', Some (e_busy ''/run/k0s''))]"
proof -
  have g1: "mounter_List fake_os w_mounted = (Inr nested_mounts, w_mounted)"
    by code_simp
  have g2: "unmount_loop fake_os cfg_data (rev nested_mounts) False w_mounted
        = (Inr True, w_mounted1, tr_nested_loop)"
    by code_simp
  have g3: "os_RemoveAll fake_os (dataDir cfg_data) w_mounted1 = (Some (e_busy ''/data''), w_mounted2)"
    by code_simp
  have g4: "os_RemoveAll fake_os (runDir cfg_data) w_mounted2 = (Some (e_busy ''/run/k0s''), w_mounted3)"
    by code_simp
  from dataDir_failure_tolerated_iff [OF g1 g2 g3 g4]
  have tol: "snd (snd (Run fake_os cfg_data w_mounted)) =
         (CallList, None) # tr_nested_loop
           @ [(CallRemoveAll ''/data'', Some (e_busy ''/data'')),
              (CallRemoveAll ''/run/k0s'', Some (e_busy ''/run/k0s''))]"
    by (simp add: cfg_data_def e_busy_def)
  have h1: "mounter_List fake_os w_sub = (Inr nested_mounts, w_sub)"
    by code_simp
  have h2: "unmount_loop fake_os cfg_data (rev nested_mounts) False w_sub
        = (Inr True, w_sub1, tr_nested_loop)"
    by code_simp
  have h3: "os_RemoveAll fake_os (dataDir cfg_data) w_sub1 = (Some (e_busy ''/data/kubelet''), w_sub2)"
    by code_simp
  have h4: "os_RemoveAll fake_os (runDir cfg_data) w_sub2 = (None, w_sub3)"
    by code_simp
  from dataDir_failure_tolerated_iff [OF h1 h2 h3 h4]
  have "Run fake_os cfg_data w_sub =
        (Some (WrapError
           ''failed to delete contents of mounted data-dir: unlinkat /data/kubelet: device or resource busy''
           (e_busy ''/data/kubelet'')),
         w_sub2,
         (CallList, None) # tr_nested_loop
           @ [(CallRemoveAll ''/data'', Some (e_busy ''/data/kubelet''))])"
    by (simp add: cfg_data_def e_busy_def)
  with h1 h2 h3 h4 g1 g2 g3 g4 tol show ?thesis by blast
qed

theorem Run_idempotent_after_success_witness:
  "Run fake_os cfg_data w_first =
     (None, w_clean,
      [(CallList, None), (CallUnmount ''/data/kubelet/pods/x'', None),
       (CallUnmount ''/data/kubelet'', None),
       (CallRemoveAll ''/data'', None), (CallRemoveAll ''/run/k0s'', None)])
   \<and> mounter_List fake_os w_clean = (Inr (map mount_at [''/'', ''/data2'']), w_clean)
   \<and> list_all (\<lambda>m. Path m \<noteq> k0sVars_DataDir cfg_data \<and> \<not> owned cfg_data (Path m))
        (map mount_at [''/'', ''/data2''])
   \<and> os_RemoveAll fake_os (dataDir cfg_data) w_clean = (None, w_clean)
   \<and> os_RemoveAll fake_os (runDir cfg_data) w_clean = (None, w_clean)
   \<and> Run fake_os cfg_data w_clean =
       (None, w_clean, [(CallList, None), (CallRemoveAll (dataDir cfg_data), None),
                        (CallRemoveAll (runDir cfg_data), None)])"
proof -
  have h0: "Run fake_os cfg_data w_first =
     (None, w_clean,
      [(CallList, None), (CallUnmount ''/data/kubelet/pods/x'', None),
       (CallUnmount ''/data/kubelet'', None),
       (CallRemoveAll ''/data'', None), (CallRemoveAll ''/run/k0s'', None)])"
    by code_simp
  have h1: "mounter_List fake_os w_clean = (Inr (map mount_at [''/'', ''/data2'']), w_clean)"
    by code_simp
  have h2: "list_all (\<lambda>m. Path m \<noteq> k0sVars_DataDir cfg_data \<and> \<not> owned cfg_data (Path m))
        (map mount_at [''/'', ''/data2''])"
    by code_simp
  have h3: "os_RemoveAll fake_os (dataDir cfg_data) w_clean = (None, w_clean)"
    by code_simp
  have h4: "os_RemoveAll fake_os (runDir cfg_data) w_clean = (None, w_clean)"
    by code_simp
  from h2 have h2': "\<forall>m\<in>set (map mount_at [''/'', ''/data2'']).
      Path m \<noteq> k0sVars_DataDir cfg_data \<and> \<not> owned cfg_data (Path m)"
    by (simp only: list_all_iff)
  from Run_idempotent_after_success [OF h1 h2' h3 h4] h0 h1 h2 h3 h4 show ?thesis
    by blast
qed

theorem owned_determined_by_data_dirs_witness:
  "dataDir cfg_data \<noteq> []
   \<and> Join [dataDir cfg_data, ''kubelet''] = ''/data/kubelet''
   \<and> dataDir cfg_data = dataDir cfg_other
   \<and> k0sVars_DataDir cfg_data = k0sVars_DataDir cfg_other
   \<and> runDir cfg_data \<noteq> runDir cfg_other
   \<and> owned cfg_data = owned cfg_other
   \<and> to_unmount cfg_data = to_unmount cfg_other"
proof -
  have h1: "dataDir cfg_data \<noteq> []" by (simp add: cfg_data_def)
  have h2: "dataDir cfg_data = dataDir cfg_other" by (simp add: cfg_other_def)
  have h3: "k0sVars_DataDir cfg_data = k0sVars_DataDir cfg_other" by (simp add: cfg_other_def)
  have h4: "runDir cfg_data \<noteq> runDir cfg_other" by (simp add: cfg_other_def cfg_data_def)
  have c: "Clean (dataDir cfg_data @ ''/kubelet'') = ''/data/kubelet''" by code_simp
  from owned_determined_by_data_dirs [of cfg_data _ cfg_other] h1 h2 h3 h4 c show ?thesis
    by metis
qed

end
